theory Spec2Isabelle
  imports Complex_Main "HOL-Library.Multiset"
begin

section \<open>Astra DB chat message history\<close>

text \<open>
  A shallow embedding of \<^verbatim>\<open>AstraDBChatMessageHistory\<close>
  (\<^verbatim>\<open>langchain_community/chat_message_histories/astradb.py\<close>): the session-scoped
  message log kept in one document collection.

  Every Python exception is a value: an operation returns \<open>Inl e\<close> where the source
  raises. A reading operation returns \<open>error + message list\<close>; a writing operation
  returns its outcome paired with the state it leaves behind, so that what a failed call
  did to the collection can be stated.
\<close>

subsection \<open>Errors\<close>

datatype error =
    ProvisioningError
  | DecodeError
  | NotImplementedError string

subsection \<open>The message codec\<close>

text \<open>
  The source encodes a message with \<^verbatim>\<open>json.dumps(message_to_dict(message))\<close> and decodes a
  list of blobs with \<^verbatim>\<open>messages_from_dict([json.loads(b) for b in blobs])\<close>. Neither the
  message model nor the JSON functions are part of the file; the definitions of this
  subsection are modelled from the specification.
\<close>

text \<open>Modelled from the spec: the domain message of \<^verbatim>\<open>langchain_core.messages\<close>
  (\<^verbatim>\<open>BaseMessage\<close>), which is not in the source file: a type discriminator drawn from a
  closed set of supported types, and the text of the message.\<close>

datatype msg_kind = Human | AI | System

record message =
  kind :: msg_kind
  content :: string

text \<open>Modelled from the spec: the JSON-serializable mapping that stands between a message
  and its blob (the value of \<^verbatim>\<open>message_to_dict\<close>, missing from the source file): the type
  discriminator as text under \<^verbatim>\<open>"type"\<close>, the content under \<^verbatim>\<open>"data"\<close>.\<close>

record item =
  type_tag :: string
  data_content :: string

text \<open>Modelled from the spec: \<^verbatim>\<open>message_to_dict\<close> of \<^verbatim>\<open>langchain_core.messages\<close>, missing
  from the source file. It embeds the type discriminator, so that decoding needs no
  context.\<close>

fun tag_of :: "msg_kind \<Rightarrow> string" where
  "tag_of Human = ''human''"
| "tag_of AI = ''ai''"
| "tag_of System = ''system''"

definition message_to_dict :: "message \<Rightarrow> item" where
  "message_to_dict m = \<lparr>type_tag = tag_of (kind m), data_content = content m\<rparr>"

text \<open>Modelled from the spec: one step of \<^verbatim>\<open>messages_from_dict\<close>, missing from the source
  file. A mapping that names an unknown message type is a decode error.\<close>

definition message_from_dict :: "item \<Rightarrow> error + message" where
  "message_from_dict it =
     (if type_tag it = ''human'' then Inr \<lparr>kind = Human, content = data_content it\<rparr>
      else if type_tag it = ''ai'' then Inr \<lparr>kind = AI, content = data_content it\<rparr>
      else if type_tag it = ''system'' then Inr \<lparr>kind = System, content = data_content it\<rparr>
      else Inl DecodeError)"

text \<open>Modelled from the spec: \<^verbatim>\<open>messages_from_dict\<close> of \<^verbatim>\<open>langchain_core.messages\<close>, missing
  from the source file: the mappings are converted in order, and the first failure is
  raised.\<close>

fun messages_from_dict :: "item list \<Rightarrow> error + message list" where
  "messages_from_dict [] = Inr []"
| "messages_from_dict (it # its) =
     (case message_from_dict it of
        Inl e \<Rightarrow> Inl e
      | Inr m \<Rightarrow>
          (case messages_from_dict its of
             Inl e \<Rightarrow> Inl e
           | Inr ms \<Rightarrow> Inr (m # ms)))"

text \<open>The two characters a JSON string escapes: the double quote and the backslash.\<close>

definition dq :: char where
  "dq = CHR 0x22"

definition bs :: char where
  "bs = CHR 0x5C"

fun escape :: "string \<Rightarrow> string" where
  "escape [] = []"
| "escape (c # cs) =
     (if c = dq \<or> c = bs then bs # c # escape cs else c # escape cs)"

definition quote :: "string \<Rightarrow> string" where
  "quote s = dq # escape s @ [dq]"

text \<open>Modelled from the spec: \<^verbatim>\<open>json.dumps\<close> on the mapping of one message, missing from
  the source file: the text
  \<^verbatim>\<open>{"type": "<tag>", "data": {"content": "<content>"}}\<close>.\<close>

definition json_dumps :: "item \<Rightarrow> string" where
  "json_dumps it =
     ''{'' @ quote ''type'' @ '': '' @ quote (type_tag it) @ '', '' @ quote ''data'' @
     '': {'' @ quote ''content'' @ '': '' @ quote (data_content it) @ ''}}''"

text \<open>\<open>expect p s\<close> reads the literal \<open>p\<close> off the front of \<open>s\<close>.\<close>

fun expect :: "string \<Rightarrow> string \<Rightarrow> string option" where
  "expect [] s = Some s"
| "expect (p # ps) [] = None"
| "expect (p # ps) (c # cs) = (if p = c then expect ps cs else None)"

text \<open>\<open>read_string s\<close> reads the body of a JSON string up to its closing quote, undoing
  the escapes; it gives the text read and what follows the quote.\<close>

fun read_string :: "string \<Rightarrow> (string \<times> string) option" where
  "read_string [] = None"
| "read_string (c # cs) =
     (if c = dq then Some ([], cs)
      else if c = bs then
        (case cs of
           [] \<Rightarrow> None
         | d # ds \<Rightarrow>
             (if d = dq \<or> d = bs then
                (case read_string ds of
                   None \<Rightarrow> None
                 | Some (t, r) \<Rightarrow> Some (d # t, r))
              else None))
      else
        (case read_string cs of
           None \<Rightarrow> None
         | Some (t, r) \<Rightarrow> Some (c # t, r)))"

text \<open>Modelled from the spec: \<^verbatim>\<open>json.loads\<close> on a stored blob, missing from the source
  file. A blob that is not the well-formed text of one mapping is a decode error.\<close>

definition json_loads :: "string \<Rightarrow> error + item" where
  "json_loads s =
     (case expect (''{'' @ quote ''type'' @ '': '' @ [dq]) s of
        None \<Rightarrow> Inl DecodeError
      | Some r1 \<Rightarrow>
          (case read_string r1 of
             None \<Rightarrow> Inl DecodeError
           | Some (t, r2) \<Rightarrow>
               (case expect ('', '' @ quote ''data'' @ '': {'' @ quote ''content'' @ '': '' @ [dq]) r2 of
                  None \<Rightarrow> Inl DecodeError
                | Some r3 \<Rightarrow>
                    (case read_string r3 of
                       None \<Rightarrow> Inl DecodeError
                     | Some (c, r4) \<Rightarrow>
                         (if r4 = ''}}'' then Inr \<lparr>type_tag = t, data_content = c\<rparr>
                          else Inl DecodeError)))))"

text \<open>The comprehension \<^verbatim>\<open>[json.loads(message_blob) for message_blob in message_blobs]\<close>:
  every blob is parsed, in order, before any mapping is converted; the first failure is
  raised.\<close>

fun loads_all :: "string list \<Rightarrow> error + item list" where
  "loads_all [] = Inr []"
| "loads_all (b # bs') =
     (case json_loads b of
        Inl e \<Rightarrow> Inl e
      | Inr it \<Rightarrow>
          (case loads_all bs' of
             Inl e \<Rightarrow> Inl e
           | Inr its \<Rightarrow> Inr (it # its)))"

text \<open>The codec of the specification: \<open>encode\<close> is what \<^verbatim>\<open>add_messages\<close> stores for one
  message, \<open>decode\<close> what a read does to one blob.\<close>

definition encode :: "message \<Rightarrow> string" where
  "encode m = json_dumps (message_to_dict m)"

definition decode :: "string \<Rightarrow> error + message" where
  "decode b = (case json_loads b of Inl e \<Rightarrow> Inl e | Inr it \<Rightarrow> message_from_dict it)"

subsection \<open>Documents, the collection and its driver\<close>

text \<open>
  The document that \<^verbatim>\<open>add_messages\<close> writes:
  \<^verbatim>\<open>{"timestamp": time.time(), "session_id": self.session_id, "body_blob": ...}\<close>.
  A timestamp is a reading of the wall clock, seconds since the epoch; the readings of
  \<^verbatim>\<open>time.time()\<close> are finite floats, which the rationals contain with their order.
\<close>

record doc =
  timestamp :: rat
  session_id :: string
  body_blob :: string

text \<open>
  What lies outside the instance: the remote collection, and the wall clock. The
  collection is the list of its documents in the order of their insertion; \<open>ticks\<close>
  counts the readings of the clock taken so far.
\<close>

record state =
  collection :: "doc list"
  ticks :: nat

text \<open>
  What the source file takes from its collaborators, none of which it defines:
  \<^item> \<open>clock\<close>: the value of the \<open>n\<close>-th call of \<^verbatim>\<open>time.time()\<close>;
  \<^item> \<open>scan\<close>: the order in which the store's cursor hands out a set of matching
    documents (the collection has no order of its own);
  \<^item> \<open>setup_failure\<close>: the exception \<^verbatim>\<open>ensure_db_setup\<close> raises, if it raises one.
\<close>

record env =
  clock :: "nat \<Rightarrow> rat"
  scan :: "doc list \<Rightarrow> doc list"
  setup_failure :: "error option"

text \<open>\<^verbatim>\<open>self.astra_env.ensure_db_setup()\<close> and its awaited form \<^verbatim>\<open>aensure_db_setup()\<close>:
  they return nothing, or raise what provisioning raised.\<close>

definition ensure_db_setup :: "env \<Rightarrow> error + unit" where
  "ensure_db_setup e = (case setup_failure e of Some err \<Rightarrow> Inl err | None \<Rightarrow> Inr ())"

definition aensure_db_setup :: "env \<Rightarrow> error + unit" where
  "aensure_db_setup e = (case setup_failure e of Some err \<Rightarrow> Inl err | None \<Rightarrow> Inr ())"

text \<open>
  \<^verbatim>\<open>paginated_find(filter={"session_id": sid}, projection={"timestamp": 1, "body_blob": 1})\<close>,
  consumed to its end: the documents of the session, in the cursor's order, each
  projected on its timestamp and its blob.
\<close>

definition paginated_find :: "env \<Rightarrow> string \<Rightarrow> doc list \<Rightarrow> (rat \<times> string) list" where
  "paginated_find e sid coll =
     map (\<lambda>d. (timestamp d, body_blob d)) (scan e (filter (\<lambda>d. session_id d = sid) coll))"

text \<open>\<^verbatim>\<open>chunked_insert_many(docs)\<close>: the documents join the collection.\<close>

definition chunked_insert_many :: "doc list \<Rightarrow> doc list \<Rightarrow> doc list" where
  "chunked_insert_many docs coll = coll @ docs"

text \<open>\<^verbatim>\<open>delete_many(filter={"session_id": sid})\<close>: the documents of the session leave the
  collection.\<close>

definition delete_many :: "string \<Rightarrow> doc list \<Rightarrow> doc list" where
  "delete_many sid coll = filter (\<lambda>d. session_id d \<noteq> sid) coll"

text \<open>The driver drains its cursor: a retrieval hands out each matching document once.\<close>

definition drains :: "env \<Rightarrow> bool" where
  "drains e = (\<forall>ds. mset (scan e ds) = mset ds)"

subsection \<open>The operations of the history\<close>

text \<open>
  The property \<^verbatim>\<open>messages\<close> (lines 71--92). Python's \<^verbatim>\<open>sorted\<close> is stable, as
  \<^const>\<open>sort_key\<close> is.
\<close>

definition messages :: "env \<Rightarrow> string \<Rightarrow> state \<Rightarrow> error + message list" where
  "messages e sid st =
     (case ensure_db_setup e of
        Inl err \<Rightarrow> Inl err
      | Inr _ \<Rightarrow>
          (let message_blobs =
                 map snd (sort_key fst (paginated_find e sid (collection st)))
           in case loads_all message_blobs of
                Inl err \<Rightarrow> Inl err
              | Inr items \<Rightarrow> messages_from_dict items))"

text \<open>The setter of \<^verbatim>\<open>messages\<close> (lines 94--96) raises, whatever it is given.\<close>

definition messages_setter ::
  "env \<Rightarrow> string \<Rightarrow> message list \<Rightarrow> state \<Rightarrow> (error + unit) \<times> state" where
  "messages_setter e sid msgs st = (Inl (NotImplementedError ''Use add_messages instead''), st)"

text \<open>\<^verbatim>\<open>aget_messages\<close> (lines 98--117): the cursor is collected into a list, the list
  sorted, the blobs taken, parsed and converted.\<close>

definition aget_messages :: "env \<Rightarrow> string \<Rightarrow> state \<Rightarrow> error + message list" where
  "aget_messages e sid st =
     (case aensure_db_setup e of
        Inl err \<Rightarrow> Inl err
      | Inr _ \<Rightarrow>
          (let docs = paginated_find e sid (collection st);
               sorted_docs = sort_key fst docs;
               message_blobs = map snd sorted_docs
           in case loads_all message_blobs of
                Inl err \<Rightarrow> Inl err
              | Inr items \<Rightarrow> messages_from_dict items))"

text \<open>
  The comprehension of \<^verbatim>\<open>add_messages\<close> (lines 122--129): one document for each
  message, in order, each stamped by its own reading of the clock; \<open>k\<close> is the number of
  readings taken before.
\<close>

fun new_docs :: "(nat \<Rightarrow> rat) \<Rightarrow> string \<Rightarrow> nat \<Rightarrow> message list \<Rightarrow> doc list" where
  "new_docs clk sid k [] = []"
| "new_docs clk sid k (m # ms) =
     \<lparr>timestamp = clk k, session_id = sid, body_blob = json_dumps (message_to_dict m)\<rparr>
       # new_docs clk sid (Suc k) ms"

text \<open>\<^verbatim>\<open>add_messages\<close> (lines 119--130).\<close>

definition add_messages ::
  "env \<Rightarrow> string \<Rightarrow> message list \<Rightarrow> state \<Rightarrow> (error + unit) \<times> state" where
  "add_messages e sid msgs st =
     (case ensure_db_setup e of
        Inl err \<Rightarrow> (Inl err, st)
      | Inr _ \<Rightarrow>
          (let docs = new_docs (clock e) sid (ticks st) msgs
           in (Inr (),
               \<lparr>collection = chunked_insert_many docs (collection st),
                ticks = ticks st + length msgs\<rparr>)))"

text \<open>\<^verbatim>\<open>aadd_messages\<close> (lines 132--143).\<close>

definition aadd_messages ::
  "env \<Rightarrow> string \<Rightarrow> message list \<Rightarrow> state \<Rightarrow> (error + unit) \<times> state" where
  "aadd_messages e sid msgs st =
     (case aensure_db_setup e of
        Inl err \<Rightarrow> (Inl err, st)
      | Inr _ \<Rightarrow>
          (let docs = new_docs (clock e) sid (ticks st) msgs
           in (Inr (),
               \<lparr>collection = chunked_insert_many docs (collection st),
                ticks = ticks st + length msgs\<rparr>)))"

text \<open>\<^verbatim>\<open>clear\<close> (lines 145--148) and \<^verbatim>\<open>aclear\<close> (lines 150--153).\<close>

definition clear :: "env \<Rightarrow> string \<Rightarrow> state \<Rightarrow> (error + unit) \<times> state" where
  "clear e sid st =
     (case ensure_db_setup e of
        Inl err \<Rightarrow> (Inl err, st)
      | Inr _ \<Rightarrow> (Inr (), st\<lparr>collection := delete_many sid (collection st)\<rparr>))"

definition aclear :: "env \<Rightarrow> string \<Rightarrow> state \<Rightarrow> (error + unit) \<times> state" where
  "aclear e sid st =
     (case aensure_db_setup e of
        Inl err \<Rightarrow> (Inl err, st)
      | Inr _ \<Rightarrow> (Inr (), st\<lparr>collection := delete_many sid (collection st)\<rparr>))"

subsection \<open>Concrete inputs\<close>

text \<open>Two messages; two environments, one whose clock gives every reading a value of its
  own and one whose clock moves at every second reading only, each with a cursor that
  hands documents out last first; the empty collection, a collection that holds two
  sessions, and one that holds a blob which is no message.\<close>

definition m_hello :: message where
  "m_hello = \<lparr>kind = Human, content = ''hi''\<rparr>"

definition m_reply :: message where
  "m_reply = \<lparr>kind = AI, content = ''yo''\<rparr>"

definition empty_state :: state where
  "empty_state = \<lparr>collection = [], ticks = 0\<rparr>"

definition coarse_clock :: "nat \<Rightarrow> rat" where
  "coarse_clock n = of_nat (n div 2)"

definition tie_env :: env where
  "tie_env = \<lparr>clock = coarse_clock, scan = rev, setup_failure = None\<rparr>"

definition ticking_env :: env where
  "ticking_env = \<lparr>clock = of_nat, scan = rev, setup_failure = None\<rparr>"

definition two_sessions :: state where
  "two_sessions =
     snd (add_messages ticking_env ''T'' [m_reply]
       (snd (add_messages ticking_env ''S'' [m_hello, m_reply] empty_state)))"

definition corrupt_state :: state where
  "corrupt_state =
     \<lparr>collection =
        [\<lparr>timestamp = 1, session_id = ''S'', body_blob = json_dumps (message_to_dict m_hello)\<rparr>,
         \<lparr>timestamp = 2, session_id = ''S'', body_blob = ''{}''\<rparr>],
      ticks = 0\<rparr>"

section \<open>Properties\<close>

subsection \<open>The codec\<close>

lemma expect_append: "expect p (p @ s) = Some s"
  by (induction p) auto

lemma bs_neq_dq: "bs \<noteq> dq"
  by (simp add: bs_def dq_def)

lemma read_string_escape: "read_string (escape s @ dq # r) = Some (s, r)"
  by (induction s) (simp_all add: bs_neq_dq)

lemma json_loads_dumps: "json_loads (json_dumps it) = Inr it"
proof -
  have "json_dumps it = (''{'' @ quote ''type'' @ '': '' @ [dq]) @ escape (type_tag it) @ dq # 
    ('', '' @ quote ''data'' @ '': {'' @ quote ''content'' @ '': '' @ [dq]) @ escape (data_content it) @ dq # ''}}''"
    by (simp add: json_dumps_def quote_def)
  then have "json_loads (json_dumps it) = Inr \<lparr>type_tag = type_tag it, data_content = data_content it\<rparr>"
    by (simp only: json_loads_def expect_append read_string_escape option.case prod.case if_True refl)
  then show ?thesis by simp
qed

lemma message_from_to_dict: "message_from_dict (message_to_dict m) = Inr m"
  by (cases "kind m") (simp_all add: message_from_dict_def message_to_dict_def)

lemma loads_all_dumps:
  "loads_all (map (\<lambda>m. json_dumps (message_to_dict m)) ms) = Inr (map message_to_dict ms)"
  by (induction ms) (simp_all add: json_loads_dumps)

lemma messages_from_dict_to_dict: "messages_from_dict (map message_to_dict ms) = Inr ms"
  by (induction ms) (simp_all add: message_from_to_dict)

lemma body_blob_new_docs:
  "map body_blob (new_docs clk sid k ms) = map (\<lambda>m. json_dumps (message_to_dict m)) ms"
  by (induction ms arbitrary: k) simp_all

lemma timestamp_new_docs:
  "map timestamp (new_docs clk sid k ms) = map clk [k ..< k + length ms]"
  by (induction ms arbitrary: k) (simp_all add: upt_rec)

lemma session_new_docs: "d \<in> set (new_docs clk sid k ms) \<Longrightarrow> session_id d = sid"
  by (induction ms arbitrary: k) auto

lemma length_new_docs: "length (new_docs clk sid k ms) = length ms"
  by (induction ms arbitrary: k) simp_all

lemma filter_new_docs_same:
  "filter (\<lambda>d. session_id d = sid) (new_docs clk sid k ms) = new_docs clk sid k ms"
  by (simp add: session_new_docs)

lemma filter_new_docs_other:
  "sid' \<noteq> sid \<Longrightarrow> filter (\<lambda>d. session_id d = sid') (new_docs clk sid k ms) = []"
  by (auto simp: filter_empty_conv dest: session_new_docs)

lemma sort_key_unique:
  assumes "mset xs = mset ys" "sorted (map f ys)" "distinct (map f ys)"
  shows "sort_key f xs = ys"
proof -
  have "mset (map f (sort_key f xs)) = mset (map f ys)"
    using assms(1) by simp
  moreover have "sorted (map f (sort_key f xs))"
    by simp
  ultimately have "sort (map f (sort_key f xs)) = map f ys"
    using assms(2) by (metis properties_for_sort)
  then have keys: "map f (sort_key f xs) = map f ys"
    by (simp add: sorted_sort_id)
  have "set (sort_key f xs) = set ys"
    using assms(1) by (metis mset_eq_setD set_sort)
  moreover have "inj_on f (set ys)"
    using assms(3) by (simp add: distinct_map)
  ultimately have "inj_on f (set (sort_key f xs) \<union> set ys)"
    by simp
  then show ?thesis
    using keys by (simp add: inj_on_map_eq_map)
qed

subsection \<open>Reading what was appended\<close>

lemma messages_of_blobs:
  assumes "setup_failure e = None"
    and "sort_key fst (paginated_find e sid (collection st)) = map (\<lambda>d. (timestamp d, body_blob d)) ds"
    and "map body_blob ds = map (\<lambda>m. json_dumps (message_to_dict m)) ms"
  shows "messages e sid st = Inr ms"
proof -
  have "map snd (map (\<lambda>d. (timestamp d, body_blob d)) ds) = map body_blob ds"
    by (simp add: comp_def)
  then show ?thesis
    using assms
    by (simp add: messages_def ensure_db_setup_def loads_all_dumps messages_from_dict_to_dict)
qed

lemma mono_coarse_clock: "mono coarse_clock"
  by (rule monoI) (simp add: coarse_clock_def div_le_mono)

lemma drains_rev: "scan e = rev \<Longrightarrow> drains e"
  by (simp add: drains_def)

lemma tie_env_added:
  "snd (add_messages tie_env ''S'' [m_hello, m_reply] empty_state) =
     \<lparr>collection =
        [\<lparr>timestamp = 0, session_id = ''S'', body_blob = json_dumps (message_to_dict m_hello)\<rparr>,
         \<lparr>timestamp = 0, session_id = ''S'', body_blob = json_dumps (message_to_dict m_reply)\<rparr>],
      ticks = 2\<rparr>"
  by (simp add: add_messages_def ensure_db_setup_def tie_env_def empty_state_def
      chunked_insert_many_def coarse_clock_def)

text \<open>
  C1, for a clock that never repeats a reading. When every reading of the clock is later
  than the one before and the retrieval hands out each document once, a batch
  appended to a session that had no document is read back as it was given: the same
  messages in the same order, whatever the order in which the cursor hands the documents
  out.
\<close>

theorem append_then_read_strict:
  assumes "setup_failure e = None" and "drains e" and "strict_mono (clock e)"
    and "\<forall>d \<in> set (collection st). session_id d \<noteq> sid"
  shows "fst (add_messages e sid ms st) = Inr () \<and>
         messages e sid (snd (add_messages e sid ms st)) = Inr ms"
proof -
  let ?docs = "new_docs (clock e) sid (ticks st) ms"
  let ?st' = "snd (add_messages e sid ms st)"
  let ?proj = "\<lambda>d. (timestamp d, body_blob d)"
  have added: "add_messages e sid ms st =
      (Inr (), \<lparr>collection = collection st @ ?docs, ticks = ticks st + length ms\<rparr>)"
    using assms(1) by (simp add: add_messages_def ensure_db_setup_def chunked_insert_many_def)
  have old: "filter (\<lambda>d. session_id d = sid) (collection st) = []"
    using assms(4) by (simp add: filter_empty_conv)
  have found: "paginated_find e sid (collection ?st') = map ?proj (scan e ?docs)"
    by (simp add: added paginated_find_def old filter_new_docs_same)
  have perm: "mset (map ?proj (scan e ?docs)) = mset (map ?proj ?docs)"
    using assms(2) by (simp add: drains_def)
  have keys: "map fst (map ?proj ?docs) = map (clock e) [ticks st ..< ticks st + length ms]"
    using timestamp_new_docs [of "clock e" sid "ticks st" ms] by (simp add: comp_def)
  have "sorted (map (clock e) [ticks st ..< ticks st + length ms])"
    using assms(3) by (simp add: sorted_map strict_mono_less_eq sorted_wrt_iff_nth_less)
  moreover have "distinct (map (clock e) [ticks st ..< ticks st + length ms])"
    using assms(3) by (simp add: distinct_map strict_mono_imp_inj_on)
  ultimately have "sort_key fst (map ?proj (scan e ?docs)) = map ?proj ?docs"
    using perm keys by (intro sort_key_unique) simp_all
  then have "messages e sid ?st' = Inr ms"
    using assms(1) found body_blob_new_docs [of "clock e" sid "ticks st" ms]
    by (intro messages_of_blobs [where ds = ?docs]) simp_all
  then show ?thesis
    by (simp add: added)
qed

theorem append_then_read_strict_witness:
  "setup_failure ticking_env = None \<and> drains ticking_env \<and> strict_mono (clock ticking_env) \<and>
   collection empty_state = [] \<and>
   fst (add_messages ticking_env ''S'' [m_hello, m_reply] empty_state) = Inr () \<and>
   messages ticking_env ''S'' (snd (add_messages ticking_env ''S'' [m_hello, m_reply] empty_state))
     = Inr [m_hello, m_reply]"
proof -
  have a: "setup_failure ticking_env = None"
    by (simp add: ticking_env_def)
  have b: "drains ticking_env"
    by (rule drains_rev) (simp add: ticking_env_def)
  have c: "strict_mono (clock ticking_env)"
    by (simp add: ticking_env_def strict_mono_def)
  have d: "\<forall>d \<in> set (collection empty_state). session_id d \<noteq> ''S''"
    by (simp add: empty_state_def)
  show ?thesis
    using a b c append_then_read_strict [OF a b c d, of "[m_hello, m_reply]"]
    by (simp add: empty_state_def)
qed

text \<open>
  C1 for a clock that is only monotonic does not hold: when two successive readings have
  the same value, both documents of the batch carry one timestamp, the stable sort keeps
  the order of the cursor, which the collection does not fix, and the read gives the two
  messages in the other order.
\<close>

theorem append_then_read_tie_counterexample:
  "setup_failure tie_env = None \<and> drains tie_env \<and> mono (clock tie_env) \<and>
   collection empty_state = [] \<and>
   messages tie_env ''S'' (snd (add_messages tie_env ''S'' [m_hello, m_reply] empty_state))
     = Inr [m_reply, m_hello] \<and>
   [m_reply, m_hello] \<noteq> [m_hello, m_reply]"
proof -
  have "drains tie_env"
    by (rule drains_rev) (simp add: tie_env_def)
  moreover have "mono (clock tie_env)"
    by (simp add: tie_env_def mono_coarse_clock)
  moreover have
    "messages tie_env ''S'' (snd (add_messages tie_env ''S'' [m_hello, m_reply] empty_state))
       = Inr [m_reply, m_hello]"
    by (simp only: tie_env_added)
      (simp add: messages_def ensure_db_setup_def tie_env_def paginated_find_def
        json_loads_dumps message_from_to_dict)
  moreover have "[m_reply, m_hello] \<noteq> [m_hello, m_reply]"
    by (simp add: m_hello_def m_reply_def)
  ultimately show ?thesis
    by (simp add: tie_env_def empty_state_def)
qed

subsection \<open>Decoding a list of blobs\<close>

lemma json_loads_error: "json_loads b = Inl err \<Longrightarrow> err = DecodeError"
  by (auto simp: json_loads_def split: option.splits if_splits prod.splits)

lemma message_from_dict_error: "message_from_dict it = Inl err \<Longrightarrow> err = DecodeError"
  by (auto simp: message_from_dict_def split: if_splits)

lemma loads_all_error: "loads_all blobs = Inl err \<Longrightarrow> err = DecodeError"
  by (induction blobs) (auto split: sum.splits dest: json_loads_error)

lemma messages_from_dict_error: "messages_from_dict its = Inl err \<Longrightarrow> err = DecodeError"
  by (induction its) (auto split: sum.splits dest: message_from_dict_error)

lemma decode_pipeline_sound:
  "(case loads_all blobs of Inl err \<Rightarrow> Inl err | Inr its \<Rightarrow> messages_from_dict its) = Inr ms
     \<Longrightarrow> map decode blobs = map Inr ms"
  by (induction blobs arbitrary: ms) (auto simp: decode_def split: sum.splits)

lemma decode_pipeline_complete:
  "map decode blobs = map Inr ms
     \<Longrightarrow> (case loads_all blobs of Inl err \<Rightarrow> Inl err | Inr its \<Rightarrow> messages_from_dict its) = Inr ms"
proof (induction blobs arbitrary: ms)
  case Nil
  then show ?case by simp
next
  case (Cons b blobs)
  then obtain m ms' where ms: "ms = m # ms'" and b: "decode b = Inr m"
    and rest: "map decode blobs = map Inr ms'"
    by (cases ms) auto
  from b obtain it where it: "json_loads b = Inr it" "message_from_dict it = Inr m"
    by (auto simp: decode_def split: sum.splits)
  from Cons.IH [OF rest] obtain its where its: "loads_all blobs = Inr its"
    "messages_from_dict its = Inr ms'"
    by (auto split: sum.splits)
  show ?case
    by (simp add: ms it its)
qed

lemma decode_pipeline_Inr:
  "(case loads_all blobs of Inl err \<Rightarrow> Inl err | Inr its \<Rightarrow> messages_from_dict its) = Inr ms
     \<longleftrightarrow> map decode blobs = map Inr ms"
  using decode_pipeline_sound decode_pipeline_complete by blast

lemma decode_pipeline_error:
  "(case loads_all blobs of Inl err \<Rightarrow> Inl err | Inr its \<Rightarrow> messages_from_dict its) = Inl err'
     \<Longrightarrow> err' = DecodeError"
  by (auto split: sum.splits dest: loads_all_error messages_from_dict_error)

lemma messages_pipeline:
  "setup_failure e = None \<Longrightarrow>
   messages e sid st =
     (case loads_all (map snd (sort_key fst (paginated_find e sid (collection st)))) of
        Inl err \<Rightarrow> Inl err
      | Inr its \<Rightarrow> messages_from_dict its)"
  by (simp add: messages_def ensure_db_setup_def)

lemma paginated_find_same_filter:
  "filter (\<lambda>d. session_id d = sid) c = filter (\<lambda>d. session_id d = sid) c'
     \<Longrightarrow> paginated_find e sid c = paginated_find e sid c'"
  by (simp add: paginated_find_def)

lemma messages_same_find:
  "paginated_find e sid (collection st) = paginated_find e sid (collection st')
     \<Longrightarrow> messages e sid st = messages e sid st'"
  by (cases "setup_failure e") (simp_all add: messages_def ensure_db_setup_def)

lemma aget_messages_eq: "aget_messages e sid st = messages e sid st"
  by (cases "setup_failure e")
    (simp_all add: aget_messages_def messages_def aensure_db_setup_def ensure_db_setup_def)

lemma scan_Nil: "drains e \<Longrightarrow> scan e [] = []"
  by (metis drains_def mset_zero_iff)

lemma Inl_notin_map_Inr: "xs = map Inr ms \<Longrightarrow> Inl err \<notin> set xs"
  by auto

lemma sorted_timestamps_new_docs:
  "mono clk \<Longrightarrow> sorted (map timestamp (new_docs clk sid k ms))"
  by (simp add: timestamp_new_docs sorted_map sorted_wrt_iff_nth_less monoD)

subsection \<open>The order of a read\<close>

text \<open>
  C2. A read that gets past provisioning is made of the documents its retrieval handed
  out, each exactly once, in ascending order of timestamp, documents of one timestamp in
  the order in which the retrieval produced them; it returns the messages \<open>ms\<close> exactly
  when decoding the blobs of these documents, in that order, gives \<open>ms\<close>.
\<close>

theorem messages_sorted_stable:
  assumes "setup_failure e = None"
  shows "\<exists>ds. mset ds = mset (paginated_find e sid (collection st)) \<and>
           sorted (map fst ds) \<and>
           (\<forall>t. filter (\<lambda>d. fst d = t) ds =
                filter (\<lambda>d. fst d = t) (paginated_find e sid (collection st))) \<and>
           (\<forall>ms. messages e sid st = Inr ms \<longleftrightarrow> map (\<lambda>d. decode (snd d)) ds = map Inr ms)"
proof -
  let ?found = "paginated_find e sid (collection st)"
  let ?ds = "sort_key fst ?found"
  have "mset ?ds = mset ?found"
    by simp
  moreover have "sorted (map fst ?ds)"
    by simp
  moreover have "\<forall>t. filter (\<lambda>d. fst d = t) ?ds = filter (\<lambda>d. fst d = t) ?found"
    by (simp add: sort_key_stable)
  moreover have "\<forall>ms. messages e sid st = Inr ms \<longleftrightarrow> map (\<lambda>d. decode (snd d)) ?ds = map Inr ms"
    using decode_pipeline_Inr [of "map snd ?ds"]
    by (simp add: messages_pipeline [OF assms] comp_def)
  ultimately show ?thesis
    by blast
qed

theorem messages_sorted_stable_witness:
  "setup_failure ticking_env = None \<and>
   (\<exists>ds. mset ds = mset (paginated_find ticking_env ''S'' (collection two_sessions)) \<and>
      sorted (map fst ds) \<and>
      (\<forall>t. filter (\<lambda>d. fst d = t) ds =
           filter (\<lambda>d. fst d = t) (paginated_find ticking_env ''S'' (collection two_sessions))) \<and>
      (\<forall>ms. messages ticking_env ''S'' two_sessions = Inr ms \<longleftrightarrow>
            map (\<lambda>d. decode (snd d)) ds = map Inr ms))"
proof -
  have a: "setup_failure ticking_env = None"
    by (simp add: ticking_env_def)
  show ?thesis
    using a messages_sorted_stable [OF a, of "''S''" two_sessions] by simp
qed

subsection \<open>The round trip of the codec\<close>

text \<open>
  C3. Decoding the encoding of a message gives the message back: \<^verbatim>\<open>json.loads\<close> undoes
  \<^verbatim>\<open>json.dumps\<close> on the mapping of a message, and \<^verbatim>\<open>messages_from_dict\<close> undoes
  \<^verbatim>\<open>message_to_dict\<close>.
\<close>

theorem codec_round_trip:
  "json_loads (json_dumps (message_to_dict m)) = Inr (message_to_dict m) \<and>
   messages_from_dict [message_to_dict m] = Inr [m] \<and>
   decode (encode m) = Inr m"
  by (simp add: decode_def encode_def json_loads_dumps message_from_to_dict)

subsection \<open>The blocking and the awaited forms\<close>

text \<open>
  C4. Each awaited operation does what its blocking form does: on the same collection and
  the same readings of the clock, \<^verbatim>\<open>aget_messages\<close> returns what \<^verbatim>\<open>messages\<close> returns,
  \<^verbatim>\<open>aadd_messages\<close> writes the documents \<^verbatim>\<open>add_messages\<close> writes, and \<^verbatim>\<open>aclear\<close> deletes
  what \<^verbatim>\<open>clear\<close> deletes.
\<close>

theorem sync_async_same:
  "aget_messages e sid st = messages e sid st \<and>
   aadd_messages e sid msgs st = add_messages e sid msgs st \<and>
   aclear e sid st = clear e sid st"
  by (simp add: aget_messages_eq aadd_messages_def add_messages_def
      aclear_def clear_def aensure_db_setup_def ensure_db_setup_def)

subsection \<open>Clearing a session\<close>

text \<open>
  C5. After a \<^verbatim>\<open>clear\<close> of a session that completes, a read of that session gives the
  empty list, and every other session keeps its documents, and so its messages.
\<close>

theorem clear_scoped:
  assumes "drains e" and "clear e sid st = (Inr (), st')"
  shows "messages e sid st' = Inr [] \<and>
         (\<forall>t. t \<noteq> sid \<longrightarrow>
            filter (\<lambda>d. session_id d = t) (collection st') =
              filter (\<lambda>d. session_id d = t) (collection st) \<and>
            messages e t st' = messages e t st)"
proof -
  from assms(2) have ok: "setup_failure e = None"
    and st': "st' = st\<lparr>collection := delete_many sid (collection st)\<rparr>"
    by (auto simp: clear_def ensure_db_setup_def split: option.splits)
  have "filter (\<lambda>d. session_id d = sid) (collection st') = []"
    by (simp add: st' delete_many_def filter_empty_conv)
  then have "messages e sid st' = Inr []"
    using ok assms(1) by (simp add: messages_def ensure_db_setup_def paginated_find_def scan_Nil)
  moreover have kept: "filter (\<lambda>d. session_id d = t) (collection st') =
      filter (\<lambda>d. session_id d = t) (collection st)" if "t \<noteq> sid" for t
    using that by (auto simp: st' delete_many_def intro: filter_cong)
  moreover have "messages e t st' = messages e t st" if "t \<noteq> sid" for t
    using kept [OF that] by (intro messages_same_find paginated_find_same_filter)
  ultimately show ?thesis
    by simp
qed

theorem clear_scoped_witness:
  "drains ticking_env \<and>
   clear ticking_env ''S'' two_sessions = (Inr (), snd (clear ticking_env ''S'' two_sessions)) \<and>
   messages ticking_env ''S'' (snd (clear ticking_env ''S'' two_sessions)) = Inr [] \<and>
   messages ticking_env ''T'' (snd (clear ticking_env ''S'' two_sessions)) =
     messages ticking_env ''T'' two_sessions"
proof -
  have a: "drains ticking_env"
    by (rule drains_rev) (simp add: ticking_env_def)
  have b: "clear ticking_env ''S'' two_sessions =
      (Inr (), snd (clear ticking_env ''S'' two_sessions))"
    by (simp add: clear_def ensure_db_setup_def ticking_env_def)
  note r = clear_scoped [OF a b]
  have c: "messages ticking_env ''S'' (snd (clear ticking_env ''S'' two_sessions)) = Inr []"
    using r by (rule conjunct1)
  have d: "messages ticking_env ''T'' (snd (clear ticking_env ''S'' two_sessions)) =
      messages ticking_env ''T'' two_sessions"
    using spec [OF conjunct2 [OF r], of "''T''"] by simp
  from a b c d show ?thesis
    by (intro conjI)
qed

subsection \<open>Sessions do not see each other\<close>

text \<open>
  C6. An append to session \<open>a\<close> writes documents that carry \<open>a\<close> and nothing else, so for
  every other session \<open>b\<close> the documents a read of \<open>b\<close> selects, and the result of that
  read, are what they were: no message appended to \<open>a\<close> enters the history of \<open>b\<close>.
\<close>

theorem session_isolation:
  assumes "a \<noteq> b"
  shows "filter (\<lambda>d. session_id d = b) (collection (snd (add_messages e a msgs st))) =
           filter (\<lambda>d. session_id d = b) (collection st) \<and>
         messages e b (snd (add_messages e a msgs st)) = messages e b st \<and>
         (\<exists>docs. collection (snd (add_messages e a msgs st)) = collection st @ docs \<and>
                 (\<forall>d \<in> set docs. session_id d = a))"
proof (cases "setup_failure e")
  case None
  then have added: "snd (add_messages e a msgs st) =
      \<lparr>collection = collection st @ new_docs (clock e) a (ticks st) msgs,
       ticks = ticks st + length msgs\<rparr>"
    by (simp add: add_messages_def ensure_db_setup_def chunked_insert_many_def)
  have "filter (\<lambda>d. session_id d = b) (new_docs (clock e) a (ticks st) msgs) = []"
    using assms by (simp add: filter_new_docs_other)
  then have same: "filter (\<lambda>d. session_id d = b) (collection (snd (add_messages e a msgs st))) =
      filter (\<lambda>d. session_id d = b) (collection st)"
    by (simp add: added)
  moreover have "\<forall>d \<in> set (new_docs (clock e) a (ticks st) msgs). session_id d = a"
    by (simp add: session_new_docs)
  moreover have "messages e b (snd (add_messages e a msgs st)) = messages e b st"
    using same by (intro messages_same_find paginated_find_same_filter)
  ultimately show ?thesis
    by (auto simp: added)
next
  case (Some err)
  then show ?thesis
    by (simp add: add_messages_def ensure_db_setup_def)
qed

theorem session_isolation_witness:
  "''S'' \<noteq> ''T'' \<and>
   filter (\<lambda>d. session_id d = ''T'')
       (collection (snd (add_messages ticking_env ''S'' [m_hello] two_sessions))) =
     filter (\<lambda>d. session_id d = ''T'') (collection two_sessions) \<and>
   messages ticking_env ''T'' (snd (add_messages ticking_env ''S'' [m_hello] two_sessions)) =
     messages ticking_env ''T'' two_sessions"
proof -
  have a: "''S'' \<noteq> ''T''"
    by simp
  show ?thesis
    using a session_isolation [OF a, of ticking_env "[m_hello]" two_sessions] by blast
qed

subsection \<open>Assigning the history\<close>

text \<open>
  C7. Assigning a list of messages to \<^verbatim>\<open>messages\<close> raises
  \<^verbatim>\<open>NotImplementedError("Use add_messages instead")\<close>, whatever the list, and leaves the
  collection as it was.
\<close>

theorem messages_setter_rejected:
  "fst (messages_setter e sid msgs st) = Inl (NotImplementedError ''Use add_messages instead'') \<and>
   snd (messages_setter e sid msgs st) = st"
  by (simp add: messages_setter_def)

subsection \<open>A blob that does not decode\<close>

text \<open>
  C8. When one document of the session holds a blob that does not decode, a read that gets
  past provisioning fails as a whole with the decode error, in both forms: it returns no
  list, not even of the messages that do decode.
\<close>

theorem decode_failure_aborts_read:
  assumes "setup_failure e = None" and "drains e"
    and "d \<in> set (collection st)" and "session_id d = sid"
    and "decode (body_blob d) = Inl err"
  shows "messages e sid st = Inl DecodeError \<and> aget_messages e sid st = Inl DecodeError"
proof -
  let ?found = "paginated_find e sid (collection st)"
  let ?blobs = "map snd (sort_key fst ?found)"
  have "d \<in> set (filter (\<lambda>d. session_id d = sid) (collection st))"
    using assms(3,4) by simp
  then have "d \<in> set (scan e (filter (\<lambda>d. session_id d = sid) (collection st)))"
    using assms(2) by (metis drains_def mset_eq_setD)
  then have "body_blob d \<in> set ?blobs"
    by (force simp: paginated_find_def)
  then have bad: "Inl err \<in> set (map decode ?blobs)"
    using assms(5) by force
  have "map decode ?blobs \<noteq> map Inr ms" for ms
  proof
    assume "map decode ?blobs = map Inr ms"
    then show False
      using bad Inl_notin_map_Inr [of "map decode ?blobs" ms err] by simp
  qed
  then have "messages e sid st \<noteq> Inr ms" for ms
    using decode_pipeline_Inr [of ?blobs] by (simp add: messages_pipeline [OF assms(1)])
  then obtain err' where failed: "messages e sid st = Inl err'"
    by (cases "messages e sid st") auto
  then have "err' = DecodeError"
    using decode_pipeline_error [of ?blobs err'] by (simp add: messages_pipeline [OF assms(1)])
  with failed have "messages e sid st = Inl DecodeError"
    by simp
  moreover have "aget_messages e sid st = messages e sid st"
    by (rule aget_messages_eq)
  ultimately show ?thesis
    by simp
qed

theorem decode_failure_aborts_read_witness:
  "setup_failure ticking_env = None \<and> drains ticking_env \<and>
   decode ''{}'' = Inl DecodeError \<and>
   messages ticking_env ''S'' corrupt_state = Inl DecodeError \<and>
   aget_messages ticking_env ''S'' corrupt_state = Inl DecodeError"
proof -
  let ?d = "\<lparr>timestamp = 2, session_id = ''S'', body_blob = ''{}''\<rparr>"
  have a: "setup_failure ticking_env = None"
    by (simp add: ticking_env_def)
  have b: "drains ticking_env"
    by (rule drains_rev) (simp add: ticking_env_def)
  have c: "?d \<in> set (collection corrupt_state)"
    by (simp add: corrupt_state_def)
  have d: "session_id ?d = ''S''"
    by simp
  have "decode ''{}'' = Inl DecodeError"
    by (simp add: decode_def json_loads_def quote_def dq_def)
  then have e: "decode (body_blob ?d) = Inl DecodeError"
    by simp
  show ?thesis
    using a b e decode_failure_aborts_read [OF a b c d e] by simp
qed

subsection \<open>The timestamps of one batch\<close>

text \<open>
  C9. When the clock never runs backwards, the documents one \<^verbatim>\<open>add_messages\<close> writes,
  one for each message, carry timestamps that do not decrease along the batch. They need
  not increase: a monotonic clock that repeats a reading stamps two documents of one batch
  alike.
\<close>

theorem batch_timestamps_nondecreasing:
  "(mono (clock e) \<and> setup_failure e = None \<longrightarrow>
      (\<exists>docs. collection (snd (add_messages e sid msgs st)) = collection st @ docs \<and>
              length docs = length msgs \<and> sorted (map timestamp docs))) \<and>
   mono (clock tie_env) \<and> setup_failure tie_env = None \<and>
   map timestamp (collection (snd (add_messages tie_env ''S'' [m_hello, m_reply] empty_state)))
     = [0, 0]"
proof -
  have "\<exists>docs. collection (snd (add_messages e sid msgs st)) = collection st @ docs \<and>
          length docs = length msgs \<and> sorted (map timestamp docs)"
    if "mono (clock e)" and "setup_failure e = None"
    using that
    by (simp add: add_messages_def ensure_db_setup_def chunked_insert_many_def
        length_new_docs sorted_timestamps_new_docs)
  moreover have "mono (clock tie_env)"
    by (simp add: tie_env_def mono_coarse_clock)
  ultimately show ?thesis
    by (simp add: tie_env_added) (simp add: tie_env_def)
qed

theorem batch_timestamps_nondecreasing_witness:
  "mono (clock tie_env) \<and> setup_failure tie_env = None \<and>
   (\<exists>docs. collection (snd (add_messages tie_env ''S'' [m_hello, m_reply] empty_state)) =
        collection empty_state @ docs \<and>
      length docs = length [m_hello, m_reply] \<and> sorted (map timestamp docs))"
  using batch_timestamps_nondecreasing [of tie_env "''S''" "[m_hello, m_reply]" empty_state]
  by blast

subsection \<open>The empty batch\<close>

text \<open>
  C10. \<^verbatim>\<open>add_messages\<close> and \<^verbatim>\<open>aadd_messages\<close> on the empty list make no document and
  insert the empty list, which leaves the collection, and so every session's history, as
  it was; once provisioning is past, neither raises.
\<close>

theorem add_no_messages:
  "new_docs (clock e) sid (ticks st) [] = [] \<and>
   chunked_insert_many [] (collection st) = collection st \<and>
   snd (add_messages e sid [] st) = st \<and>
   snd (aadd_messages e sid [] st) = st \<and>
   (setup_failure e = None \<longrightarrow>
      fst (add_messages e sid [] st) = Inr () \<and> fst (aadd_messages e sid [] st) = Inr ())"
  by (simp add: add_messages_def aadd_messages_def ensure_db_setup_def aensure_db_setup_def
      chunked_insert_many_def split: option.splits)

theorem add_no_messages_witness:
  "setup_failure ticking_env = None \<and>
   fst (add_messages ticking_env ''S'' [] two_sessions) = Inr () \<and>
   fst (aadd_messages ticking_env ''S'' [] two_sessions) = Inr () \<and>
   snd (add_messages ticking_env ''S'' [] two_sessions) = two_sessions \<and>
   snd (aadd_messages ticking_env ''S'' [] two_sessions) = two_sessions"
proof -
  have a: "setup_failure ticking_env = None"
    by (simp add: ticking_env_def)
  show ?thesis
    using a add_no_messages [of ticking_env "''S''" two_sessions] by blast
qed

end
